theory Spec2Isabelle
  imports Complex_Main "HOL-Library.Multiset" "HOL-Library.List_Lexorder" "HOL-Library.Char_ord"
begin

section \<open>Data model\<close>

text \<open>
  The script \<^verbatim>\<open>Frostiq.py\<close> reads a CSV file into a pandas data frame, cleans it
  (lines 30 to 79) and derives five aggregate tables with their insight sentences
  (lines 95 to 239). The embedding starts from the frame as it stands after the column
  names have been normalised and the missing required columns added (line 53): a list of
  rows with the six required columns.

  A cell of the \<^verbatim>\<open>Date\<close> or \<^verbatim>\<open>Engagements\<close> column is what pandas holds
  there: the null value (NaN, NaT), a string, an integer, a floating-point number, or a
  timestamp (nanoseconds since the epoch). A floating-point number that is not NaN is a
  rational or one of the two infinities; NaN is the null cell. The four label columns hold
  a string or null (\<open>None\<close>); a column that the script had to add holds the empty
  string, which is not null.
\<close>

type_synonym timestamp = int

datatype fnum = Finite rat | PosInf | NegInf

datatype cell = CNull | CStr string | CInt int | CFloat fnum | CTime timestamp

record ('d, 'e) row =
  Date :: 'd
  Platform :: "string option"
  Sentiment :: "string option"
  Location :: "string option"
  Engagements :: 'e
  Media_Type :: "string option"

datatype error = TypeError | IntCastingNaNError

record report =
  original_rows :: nat
  cleaned_rows :: nat
  missing_engagements_count :: nat
  invalid_date_count :: int

text \<open>Assigning the \<^verbatim>\<open>Date\<close> and \<^verbatim>\<open>Engagements\<close> columns changes their type.\<close>

definition with_cells :: "'d2 \<Rightarrow> 'e2 \<Rightarrow> ('d, 'e) row \<Rightarrow> ('d2, 'e2) row" where
  "with_cells d e r =
     \<lparr>Date = d, Platform = Platform r, Sentiment = Sentiment r, Location = Location r,
      Engagements = e, Media_Type = Media_Type r\<rparr>"

text \<open>The four label cells of a row: no step of the cleaning changes them.\<close>

definition labels :: "('d, 'e) row \<Rightarrow> string option \<times> string option \<times> string option \<times> string option" where
  "labels r = (Platform r, Sentiment r, Location r, Media_Type r)"

section \<open>Cleaning (lines 30 to 79)\<close>

subsection \<open>Date coercion (lines 56 to 58)\<close>

fun isnull :: "cell \<Rightarrow> bool" where
  "isnull CNull = True"
| "isnull _ = False"

definition isnull_sum :: "cell list \<Rightarrow> int" where
  "isnull_sum col = int (length (filter isnull col))"

definition isnat_sum :: "timestamp option list \<Rightarrow> int" where
  "isnat_sum col = int (length (filter (\<lambda>d. d = None) col))"

text \<open>
  \<^verbatim>\<open>pd.to_datetime(col, errors='coerce')\<close>: a null cell stays null (NaT), a timestamp
  stays as it is, and every other cell is parsed by pandas, whose parser \<open>td\<close> is a
  parameter. It receives the whole column, since pandas may infer the date format from the
  column's other cells.
\<close>

fun to_datetime_cell ::
  "(cell list \<Rightarrow> cell \<Rightarrow> timestamp option) \<Rightarrow> cell list \<Rightarrow> cell \<Rightarrow> timestamp option" where
  "to_datetime_cell td col CNull = None"
| "to_datetime_cell td col (CTime t) = Some t"
| "to_datetime_cell td col c = td col c"

definition coerce_dates ::
  "(cell list \<Rightarrow> cell \<Rightarrow> timestamp option) \<Rightarrow> (cell, 'e) row list \<Rightarrow> (timestamp option, 'e) row list" where
  "coerce_dates td df =
     (let col = map Date df
      in map (\<lambda>r. with_cells (to_datetime_cell td col (Date r)) (Engagements r) r) df)"

subsection \<open>Counting missing engagements (lines 62 to 71)\<close>

text \<open>Python's \<^verbatim>\<open>str.strip\<close>, on the ASCII white space characters.\<close>

definition py_isspace :: "char \<Rightarrow> bool" where
  "py_isspace c = (let n = (of_char c :: nat) in (9 \<le> n \<and> n \<le> 13) \<or> (28 \<le> n \<and> n \<le> 32))"

definition py_strip :: "string \<Rightarrow> string" where
  "py_strip s = rev (dropWhile py_isspace (rev (dropWhile py_isspace s)))"

text \<open>
  The body of the loop for one row: \<open>Inr True\<close> when the counter is incremented. The
  parameter \<open>fl\<close> tells whether Python's \<^verbatim>\<open>float\<close> accepts a string; on a string
  it can only raise \<^verbatim>\<open>ValueError\<close>, which the loop catches. Integers and floats have a
  numeric type, so \<^verbatim>\<open>float\<close> is not called on them. A timestamp is neither null, nor
  blank, nor of a numeric type, and \<^verbatim>\<open>float\<close> raises \<^verbatim>\<open>TypeError\<close> on it, which the
  loop does not catch.
\<close>

fun engagement_missing :: "(string \<Rightarrow> bool) \<Rightarrow> cell \<Rightarrow> error + bool" where
  "engagement_missing fl CNull = Inr True"
| "engagement_missing fl (CStr s) = Inr (if py_strip s = [] then True else \<not> fl s)"
| "engagement_missing fl (CInt i) = Inr False"
| "engagement_missing fl (CFloat f) = Inr False"
| "engagement_missing fl (CTime t) = Inl TypeError"

fun count_missing :: "(string \<Rightarrow> bool) \<Rightarrow> ('d, cell) row list \<Rightarrow> nat \<Rightarrow> error + nat" where
  "count_missing fl [] n = Inr n"
| "count_missing fl (r # rs) n =
     (case engagement_missing fl (Engagements r) of
        Inl e \<Rightarrow> Inl e
      | Inr b \<Rightarrow> count_missing fl rs (if b then n + 1 else n))"

subsection \<open>Conversion of the engagements (line 73)\<close>

text \<open>
  \<^verbatim>\<open>pd.to_numeric(col, errors='coerce')\<close>: numbers stay, a string is parsed by pandas
  (the parameter \<open>tn\<close>; \<open>None\<close> is NaN). \<^verbatim>\<open>fillna(0)\<close> replaces NaN by 0, and
  \<^verbatim>\<open>astype(int)\<close> truncates towards zero and raises on an infinity. Integers are
  unbounded here: the wrap-around of 64-bit integers is not modelled.
\<close>

fun to_numeric_cell :: "(string \<Rightarrow> fnum option) \<Rightarrow> cell \<Rightarrow> fnum option" where
  "to_numeric_cell tn CNull = None"
| "to_numeric_cell tn (CStr s) = tn s"
| "to_numeric_cell tn (CInt i) = Some (Finite (of_int i))"
| "to_numeric_cell tn (CFloat f) = Some f"
| "to_numeric_cell tn (CTime t) = Some (Finite (of_int t))"

definition fillna0 :: "fnum option \<Rightarrow> fnum" where
  "fillna0 x = (case x of None \<Rightarrow> Finite 0 | Some f \<Rightarrow> f)"

fun astype_int :: "fnum \<Rightarrow> error + int" where
  "astype_int (Finite q) = Inr (if 0 \<le> q then \<lfloor>q\<rfloor> else \<lceil>q\<rceil>)"
| "astype_int PosInf = Inl IntCastingNaNError"
| "astype_int NegInf = Inl IntCastingNaNError"

definition convert_engagement :: "(string \<Rightarrow> fnum option) \<Rightarrow> cell \<Rightarrow> error + int" where
  "convert_engagement tn c = astype_int (fillna0 (to_numeric_cell tn c))"

fun convert_engagements ::
  "(string \<Rightarrow> fnum option) \<Rightarrow> ('d, cell) row list \<Rightarrow> error + ('d, int) row list" where
  "convert_engagements tn [] = Inr []"
| "convert_engagements tn (r # rs) =
     (case convert_engagement tn (Engagements r) of
        Inl e \<Rightarrow> Inl e
      | Inr i \<Rightarrow>
          (case convert_engagements tn rs of
             Inl e \<Rightarrow> Inl e
           | Inr rs' \<Rightarrow> Inr (with_cells (Date r) i r # rs')))"

subsection \<open>Dropping the rows without a date (lines 77 to 79)\<close>

fun dropna_Date :: "(timestamp option, 'e) row list \<Rightarrow> (timestamp, 'e) row list" where
  "dropna_Date [] = []"
| "dropna_Date (r # rs) =
     (case Date r of
        None \<Rightarrow> dropna_Date rs
      | Some t \<Rightarrow> with_cells t (Engagements r) r # dropna_Date rs)"

definition clean ::
  "(cell list \<Rightarrow> cell \<Rightarrow> timestamp option) \<Rightarrow> (string \<Rightarrow> bool) \<Rightarrow> (string \<Rightarrow> fnum option) \<Rightarrow>
   (cell, cell) row list \<Rightarrow> error + (report \<times> (timestamp, int) row list)" where
  "clean td fl tn df =
     (let original = length df;
          initial_date_nulls = isnull_sum (map Date df);
          df1 = coerce_dates td df;
          invalid = isnat_sum (map Date df1) - initial_date_nulls
      in case count_missing fl df1 0 of
           Inl e \<Rightarrow> Inl e
         | Inr missing \<Rightarrow>
             (case convert_engagements tn df1 of
                Inl e \<Rightarrow> Inl e
              | Inr df2 \<Rightarrow>
                  (let df3 = dropna_Date df2
                   in Inr (\<lparr>original_rows = original, cleaned_rows = length df3,
                            missing_engagements_count = missing,
                            invalid_date_count = invalid\<rparr>, df3))))"

section \<open>Aggregate tables (lines 95 to 219)\<close>

text \<open>
  \<^verbatim>\<open>value_counts()\<close> leaves the null entries out (\<^verbatim>\<open>dropna=True\<close> is the default),
  counts each remaining value, and orders the values by falling count. The values start in
  the order of their first occurrence.
\<close>

fun dropna :: "'a option list \<Rightarrow> 'a list" where
  "dropna [] = []"
| "dropna (None # xs) = dropna xs"
| "dropna (Some x # xs) = x # dropna xs"

definition unique :: "'a list \<Rightarrow> 'a list" where
  "unique xs = rev (remdups (rev xs))"

definition value_counts :: "'a option list \<Rightarrow> ('a \<times> nat) list" where
  "value_counts col =
     (let xs = dropna col
      in sort_key (\<lambda>(k, c). - int c) (map (\<lambda>k. (k, count_list xs k)) (unique xs)))"

text \<open>
  \<^verbatim>\<open>groupby(key)['Engagements'].sum()\<close> leaves the rows with a null key out
  (\<^verbatim>\<open>dropna=True\<close> is the default), and gives one row for each key, the keys ascending.
\<close>

fun dropna_keys :: "('k option \<times> 'v) list \<Rightarrow> ('k \<times> 'v) list" where
  "dropna_keys [] = []"
| "dropna_keys ((None, v) # xs) = dropna_keys xs"
| "dropna_keys ((Some k, v) # xs) = (k, v) # dropna_keys xs"

definition group_sum :: "('k \<times> int) list \<Rightarrow> 'k \<Rightarrow> int" where
  "group_sum xs k = sum_list (map snd (filter (\<lambda>(k', v). k' = k) xs))"

definition groupby_sum :: "('k::linorder option \<times> int) list \<Rightarrow> ('k \<times> int) list" where
  "groupby_sum kvs =
     (let xs = dropna_keys kvs
      in map (\<lambda>k. (k, group_sum xs k)) (sort (remdups (map fst xs))))"

text \<open>\<^verbatim>\<open>sort_values(by='Engagements', ascending=False)\<close>.\<close>

definition sort_values_desc :: "('k \<times> int) list \<Rightarrow> ('k \<times> int) list" where
  "sort_values_desc tbl = sort_key (\<lambda>(k, v). - v) tbl"

text \<open>\<^verbatim>\<open>.dt.date\<close>: the calendar day of a timestamp, as the number of days since the epoch.\<close>

definition dt_date :: "timestamp \<Rightarrow> int" where
  "dt_date t = t div 86400000000000"

definition sentiment_counts :: "(timestamp, int) row list \<Rightarrow> (string \<times> nat) list" where
  "sentiment_counts df = value_counts (map Sentiment df)"

definition engagement_by_date :: "(timestamp, int) row list \<Rightarrow> (int \<times> int) list" where
  "engagement_by_date df = groupby_sum (map (\<lambda>r. (Some (dt_date (Date r)), Engagements r)) df)"

definition platform_engagements :: "(timestamp, int) row list \<Rightarrow> (string \<times> int) list" where
  "platform_engagements df =
     sort_values_desc (groupby_sum (map (\<lambda>r. (Platform r, Engagements r)) df))"

definition media_type_counts :: "(timestamp, int) row list \<Rightarrow> (string \<times> nat) list" where
  "media_type_counts df = value_counts (map Media_Type df)"

text \<open>Line 218, then line 219.\<close>

definition location_sums :: "(timestamp, int) row list \<Rightarrow> (string \<times> int) list" where
  "location_sums df = groupby_sum (map (\<lambda>r. (Location r, Engagements r)) df)"

definition engagements_by_location :: "(timestamp, int) row list \<Rightarrow> (string \<times> int) list" where
  "engagements_by_location df = take 5 (sort_values_desc (location_sums df))"

section \<open>Insights\<close>

text \<open>
  An insight is one sentence of the script, with the values that the sentence interpolates.
  The script computes shares, averages and the thresholds of the trend in double precision;
  they are exact rationals here, and the formatting of numbers is not modelled.
\<close>

datatype comparison = More fnum | Fewer

datatype insight =
    Dominant_Sentiment string rat
  | Second_Sentiment string rat
  | Third_Sentiment string rat
  | Peak_Engagement int int
  | Average_Daily_Engagement rat
  | Upward_Trend
  | Downward_Trend
  | Stable_Trend
  | Most_Engaging_Platform string int
  | Platform_Comparison string comparison string
  | Top_Three_Platforms
  | Most_Prevalent_Media_Type string rat
  | Second_Media_Type string rat
  | Diverse_Media_Mix
  | Dominated_Media_Mix
  | Highest_Engagement_Location string int
  | Top_Two_Locations string string
  | Top_Five_Locations

definition share :: "nat \<Rightarrow> nat \<Rightarrow> rat" where
  "share c n = of_nat c / of_nat n * 100"

definition sentiment_insights :: "(string \<times> nat) list \<Rightarrow> insight list" where
  "sentiment_insights tbl =
     (let total_sentiments = sum_list (map snd tbl)
      in (if length tbl > 0 then [Dominant_Sentiment (fst (tbl ! 0)) (share (snd (tbl ! 0)) total_sentiments)] else [])
       @ (if length tbl > 1 then [Second_Sentiment (fst (tbl ! 1)) (share (snd (tbl ! 1)) total_sentiments)] else [])
       @ (if length tbl > 2 then [Third_Sentiment (fst (tbl ! 2)) (share (snd (tbl ! 2)) total_sentiments)] else []))"

text \<open>\<^verbatim>\<open>idxmax\<close>: the first row with the greatest total.\<close>

fun max_row :: "('k \<times> int) list \<Rightarrow> ('k \<times> int) \<Rightarrow> ('k \<times> int)" where
  "max_row [] best = best"
| "max_row (r # rs) best = max_row rs (if snd r > snd best then r else best)"

definition trend_sentence :: "int \<Rightarrow> int \<Rightarrow> insight" where
  "trend_sentence start_engagement end_engagement =
     (if (of_int end_engagement :: rat) > of_int start_engagement * (11 / 10) then Upward_Trend
      else if (of_int end_engagement :: rat) < of_int start_engagement * (9 / 10) then Downward_Trend
      else Stable_Trend)"

definition trend_insights :: "(int \<times> int) list \<Rightarrow> insight list" where
  "trend_insights tbl =
     (case tbl of
        [] \<Rightarrow> []
      | r # rs \<Rightarrow>
          (let m = max_row rs r
           in [Peak_Engagement (fst m) (snd m),
               Average_Daily_Engagement (of_int (sum_list (map snd tbl)) / of_nat (length tbl))]
            @ (if length tbl > 1 then [trend_sentence (snd (hd tbl)) (snd (last tbl))] else [])))"

text \<open>
  Line 178. Line 179 as it is written puts the format \<^verbatim>\<open>:.1f\<close> inside the call of
  \<^verbatim>\<open>str\<close>, which is not an expression of Python; the sentence is taken here as the
  one that interpolates \<^verbatim>\<open>percentage_difference\<close> when it is positive, and the word
  \<^verbatim>\<open>fewer\<close> otherwise.
\<close>

definition percentage_difference :: "int \<Rightarrow> int \<Rightarrow> fnum" where
  "percentage_difference most second =
     (if second \<noteq> 0 then Finite (of_int (most - second) / of_int second * 100) else PosInf)"

fun fnum_positive :: "fnum \<Rightarrow> bool" where
  "fnum_positive (Finite q) = (q > 0)"
| "fnum_positive PosInf = True"
| "fnum_positive NegInf = False"

definition platform_insights :: "(string \<times> int) list \<Rightarrow> insight list" where
  "platform_insights tbl =
     (if length tbl > 0 then [Most_Engaging_Platform (fst (tbl ! 0)) (snd (tbl ! 0))] else [])
   @ (if length tbl > 1
      then (let pd = percentage_difference (snd (tbl ! 0)) (snd (tbl ! 1))
            in [Platform_Comparison (fst (tbl ! 0)) (if fnum_positive pd then More pd else Fewer)
                  (fst (tbl ! 1))])
      else [])
   @ (if length tbl > 2 then [Top_Three_Platforms] else [])"

definition media_type_insights :: "(string \<times> nat) list \<Rightarrow> insight list" where
  "media_type_insights tbl =
     (let total_media_types = sum_list (map snd tbl)
      in (if length tbl > 0 then [Most_Prevalent_Media_Type (fst (tbl ! 0)) (share (snd (tbl ! 0)) total_media_types)] else [])
       @ (if length tbl > 1 then [Second_Media_Type (fst (tbl ! 1)) (share (snd (tbl ! 1)) total_media_types)] else [])
       @ (if length tbl > 0 \<and> (of_nat (snd (tbl ! 0)) :: rat) / of_nat total_media_types < 1 / 2 then [Diverse_Media_Mix]
          else if length tbl > 0 then [Dominated_Media_Mix]
          else []))"

definition location_insights :: "(string \<times> int) list \<Rightarrow> insight list" where
  "location_insights tbl =
     (if length tbl > 0 then [Highest_Engagement_Location (fst (tbl ! 0)) (snd (tbl ! 0))] else [])
   @ (if length tbl > 1 then [Top_Two_Locations (fst (tbl ! 0)) (fst (tbl ! 1))] else [])
   @ (if length tbl > 2 then [Top_Five_Locations] else [])"

section \<open>The pipeline\<close>

record charts =
  sentiment_table :: "(string \<times> nat) list"
  sentiment_list :: "insight list"
  trend_table :: "(int \<times> int) list"
  trend_list :: "insight list"
  platform_table :: "(string \<times> int) list"
  platform_list :: "insight list"
  media_type_table :: "(string \<times> nat) list"
  media_type_list :: "insight list"
  location_table :: "(string \<times> int) list"
  location_list :: "insight list"

definition build_charts :: "(timestamp, int) row list \<Rightarrow> charts" where
  "build_charts df =
     \<lparr>sentiment_table = sentiment_counts df,
      sentiment_list = sentiment_insights (sentiment_counts df),
      trend_table = engagement_by_date df,
      trend_list = trend_insights (engagement_by_date df),
      platform_table = platform_engagements df,
      platform_list = platform_insights (platform_engagements df),
      media_type_table = media_type_counts df,
      media_type_list = media_type_insights (media_type_counts df),
      location_table = engagements_by_location df,
      location_list = location_insights (engagements_by_location df)\<rparr>"

text \<open>
  Lines 86 to 89: with no cleaned row the script shows a warning and builds no chart
  (\<open>None\<close>). An exception of the cleaning is caught at line 241 and shown as an error.
\<close>

definition pipeline ::
  "(cell list \<Rightarrow> cell \<Rightarrow> timestamp option) \<Rightarrow> (string \<Rightarrow> bool) \<Rightarrow> (string \<Rightarrow> fnum option) \<Rightarrow>
   (cell, cell) row list \<Rightarrow> error + (report \<times> charts option)" where
  "pipeline td fl tn df =
     (case clean td fl tn df of
        Inl e \<Rightarrow> Inl e
      | Inr (rep, cleaned) \<Rightarrow>
          Inr (rep, if cleaned_rows rep = 0 then None else Some (build_charts cleaned)))"

text \<open>
  A frame that the cleaning has produced, read as an input frame again: the dates are
  timestamps and the engagements integers.
\<close>

definition as_input :: "(timestamp, int) row \<Rightarrow> (cell, cell) row" where
  "as_input r = with_cells (CTime (Date r)) (CInt (Engagements r)) r"

section \<open>Sample parsers and frames\<close>

text \<open>
  Concrete parsers for the examples: two ISO dates, and strings of decimal digits. They
  agree with pandas and Python on the strings that the examples use.
\<close>

definition sample_to_datetime :: "cell list \<Rightarrow> cell \<Rightarrow> timestamp option" where
  "sample_to_datetime col c =
     (case c of
        CStr s \<Rightarrow> map_of [(''2024-01-01'', 1704067200000000000),
                          (''2024-01-02'', 1704153600000000000)] s
      | _ \<Rightarrow> None)"

definition is_digit :: "char \<Rightarrow> bool" where
  "is_digit c = (let n = (of_char c :: nat) in 48 \<le> n \<and> n \<le> 57)"

definition sample_float :: "string \<Rightarrow> bool" where
  "sample_float s = (s \<noteq> [] \<and> list_all is_digit s)"

definition sample_to_numeric :: "string \<Rightarrow> fnum option" where
  "sample_to_numeric s =
     (if sample_float s
      then Some (Finite (of_nat (fold (\<lambda>c n. 10 * n + (of_char c - 48)) s 0)))
      else None)"

definition mk_row :: "'d \<Rightarrow> string option \<Rightarrow> string option \<Rightarrow> string option \<Rightarrow> 'e \<Rightarrow> string option \<Rightarrow> ('d, 'e) row" where
  "mk_row d p s l e m =
     \<lparr>Date = d, Platform = p, Sentiment = s, Location = l, Engagements = e, Media_Type = m\<rparr>"

text \<open>
  Three rows: a valid date, a string that is no date, and an empty date cell.
\<close>

definition sample_frame :: "(cell, cell) row list" where
  "sample_frame =
     [mk_row (CStr ''2024-01-01'') (Some ''Web'') (Some ''Positive'') (Some ''Oslo'') (CInt 5) (Some ''Video''),
      mk_row (CStr ''not-a-date'') (Some ''Web'') (Some ''Positive'') (Some ''Oslo'') (CStr ''150'') (Some ''Text''),
      mk_row CNull (Some ''Print'') None (Some ''Rome'') CNull (Some ''Text'')]"

definition sample_report :: report where
  "sample_report =
     \<lparr>original_rows = 3, cleaned_rows = 1, missing_engagements_count = 1, invalid_date_count = 1\<rparr>"

definition sample_cleaned :: "(timestamp, int) row list" where
  "sample_cleaned =
     [mk_row 1704067200000000000 (Some ''Web'') (Some ''Positive'') (Some ''Oslo'') 5 (Some ''Video'')]"




definition engagement_frame :: "(cell, cell) row list" where
  "engagement_frame =
     map (\<lambda>e. mk_row (CStr ''2024-01-01'') (Some ''Web'') (Some ''Positive'') (Some ''Oslo'') e (Some ''Video''))
       [CNull, CStr ''  '', CStr ''150'', CInt 150, CFloat (Finite 150), CFloat (Finite (- 3 / 2)), CStr ''abc'']"


definition engagement_cleaned :: "(timestamp, int) row list" where
  "engagement_cleaned =
     map (\<lambda>e. mk_row 1704067200000000000 (Some ''Web'') (Some ''Positive'') (Some ''Oslo'') e (Some ''Video''))
       [0, 0, 150, 150, 150, - 1, 0]"

definition engagement_report :: report where
  "engagement_report =
     \<lparr>original_rows = 7, cleaned_rows = 7, missing_engagements_count = 3, invalid_date_count = 0\<rparr>"

definition null_label_frame :: "(cell, cell) row list" where
  "null_label_frame =
     [mk_row (CStr ''2024-01-01'') (Some ''Web'') None (Some ''Oslo'') (CInt 5) (Some ''Video''),
      mk_row (CStr ''2024-01-02'') None (Some ''Positive'') (Some ''Oslo'') (CInt 7) (Some ''Text'')]"

definition null_label_cleaned :: "(timestamp, int) row list" where
  "null_label_cleaned =
     [mk_row 1704067200000000000 (Some ''Web'') None (Some ''Oslo'') 5 (Some ''Video''),
      mk_row 1704153600000000000 None (Some ''Positive'') (Some ''Oslo'') 7 (Some ''Text'')]"

definition null_label_report :: report where
  "null_label_report =
     \<lparr>original_rows = 2, cleaned_rows = 2, missing_engagements_count = 0, invalid_date_count = 0\<rparr>"

definition location_frame :: "(timestamp, int) row list" where
  "location_frame =
     map (\<lambda>(l, e). mk_row 1704067200000000000 (Some ''Web'') (Some ''Positive'') l e (Some ''Video''))
       [(Some ''Oslo'', 3), (Some ''Rome'', 9), (Some ''Bern'', 1), (Some ''Oslo'', 4), (Some ''Kyiv'', 7),
        (None, 50), (Some ''Lima'', 2), (Some ''Riga'', 5), (Some ''Bonn'', 7)]"


definition no_date_frame :: "(cell, cell) row list" where
  "no_date_frame =
     [mk_row (CStr ''not-a-date'') (Some ''Web'') (Some ''Positive'') (Some ''Oslo'') (CInt 5) (Some ''Video''),
      mk_row CNull (Some ''Print'') None (Some ''Rome'') (CStr ''abc'') (Some ''Text'')]"

definition no_date_report :: report where
  "no_date_report =
     \<lparr>original_rows = 2, cleaned_rows = 0, missing_engagements_count = 1, invalid_date_count = 1\<rparr>"

definition no_charts :: charts where
  "no_charts =
     \<lparr>sentiment_table = [], sentiment_list = [], trend_table = [], trend_list = [],
      platform_table = [], platform_list = [], media_type_table = [], media_type_list = [],
      location_table = [], location_list = []\<rparr>"

text \<open>The cells of the \<^verbatim>\<open>Engagements\<close> column on which the cleaning raises.\<close>

fun raises :: "(string \<Rightarrow> fnum option) \<Rightarrow> cell \<Rightarrow> bool" where
  "raises tn (CTime t) = True"
| "raises tn c = (to_numeric_cell tn c = Some PosInf \<or> to_numeric_cell tn c = Some NegInf)"

section \<open>Properties of the cleaning\<close>

lemma labels_with_cells [simp]: "labels (with_cells d e r) = labels r"
  by (simp add: labels_def with_cells_def)

lemma Date_with_cells [simp]: "Date (with_cells d e r) = d"
  by (simp add: with_cells_def)

lemma Engagements_with_cells [simp]: "Engagements (with_cells d e r) = e"
  by (simp add: with_cells_def)

lemma length_coerce_dates [simp]: "length (coerce_dates td df) = length df"
  by (simp add: coerce_dates_def Let_def)

lemma map_Date_coerce_dates:
  "map Date (coerce_dates td df) = map (to_datetime_cell td (map Date df)) (map Date df)"
  by (simp add: coerce_dates_def Let_def comp_def)






text \<open>What a run of the cleaning that raises nothing has computed.\<close>

lemma clean_Inr:
  assumes "clean td fl tn df = Inr (rep, cleaned)"
  obtains m df2 where
    "count_missing fl (coerce_dates td df) 0 = Inr m"
    "convert_engagements tn (coerce_dates td df) = Inr df2"
    "cleaned = dropna_Date df2"
    "rep = \<lparr>original_rows = length df, cleaned_rows = length cleaned,
            missing_engagements_count = m,
            invalid_date_count = isnat_sum (map Date (coerce_dates td df)) - isnull_sum (map Date df)\<rparr>"
  using assms by (auto simp: clean_def Let_def split: sum.splits)

lemma isnull_to_datetime_cell: "isnull c \<Longrightarrow> to_datetime_cell td col c = None"
  by (cases c) auto

lemma count_nat_split:
  "length (filter (\<lambda>c. to_datetime_cell td col0 c = None) col) =
     length (filter isnull col) +
     length (filter (\<lambda>c. \<not> isnull c \<and> to_datetime_cell td col0 c = None) col)"
  by (induction col) (auto simp: isnull_to_datetime_cell)

lemma isnat_sum_map:
  "isnat_sum (map (to_datetime_cell td col0) col) =
     int (length (filter (\<lambda>c. to_datetime_cell td col0 c = None) col))"
  by (induction col) (auto simp: isnat_sum_def)

lemma sample_clean:
  "clean sample_to_datetime sample_float sample_to_numeric sample_frame =
     Inr (sample_report, sample_cleaned)"
  by code_simp



text \<open>
  Claim C4. Whenever the cleaning returns, the reported \<^verbatim>\<open>invalid_date_count\<close> is the
  number of null dates after the coercion minus the number of null dates before it, and
  this is the number of \<^verbatim>\<open>Date\<close> cells that were not null before the coercion and are
  NaT after it. A cell that was null before is not counted.
\<close>

theorem invalid_date_count_delta:
  assumes "clean td fl tn df = Inr (rep, cleaned)"
  shows "invalid_date_count rep =
           isnat_sum (map (to_datetime_cell td (map Date df)) (map Date df)) - isnull_sum (map Date df) \<and>
         invalid_date_count rep =
           int (length (filter (\<lambda>c. \<not> isnull c \<and> to_datetime_cell td (map Date df) c = None)
             (map Date df)))"
proof -
  define col where "col = map Date df"
  from assms have rep: "invalid_date_count rep =
      isnat_sum (map Date (coerce_dates td df)) - isnull_sum (map Date df)"
    by (rule clean_Inr) simp
  have "invalid_date_count rep = isnat_sum (map (to_datetime_cell td col) col) - isnull_sum col"
    unfolding rep map_Date_coerce_dates col_def ..
  moreover have "isnat_sum (map (to_datetime_cell td col) col) - isnull_sum col =
      int (length (filter (\<lambda>c. \<not> isnull c \<and> to_datetime_cell td col c = None) col))"
    unfolding isnat_sum_map isnull_sum_def count_nat_split [of td col col] by simp
  ultimately show ?thesis unfolding col_def by simp
qed

theorem invalid_date_count_delta_witness:
  "clean sample_to_datetime sample_float sample_to_numeric sample_frame = Inr (sample_report, sample_cleaned) \<and>
   isnull_sum (map Date sample_frame) = 1 \<and>
   isnat_sum (map (to_datetime_cell sample_to_datetime (map Date sample_frame)) (map Date sample_frame)) = 2 \<and>
   invalid_date_count sample_report = 1 \<and>
   length (filter (\<lambda>c. \<not> isnull c \<and> to_datetime_cell sample_to_datetime (map Date sample_frame) c = None)
     (map Date sample_frame)) = 1"
proof -
  have h: "clean sample_to_datetime sample_float sample_to_numeric sample_frame =
      Inr (sample_report, sample_cleaned)"
    by code_simp
  have n: "isnull_sum (map Date sample_frame) = 1"
    by (simp add: sample_frame_def mk_row_def isnull_sum_def)
  have r: "invalid_date_count sample_report = 1"
    by (simp add: sample_report_def)
  from invalid_date_count_delta [OF h] n r show ?thesis using h by simp
qed


lemma to_numeric_cell_None:
  "to_numeric_cell tn c = None \<longleftrightarrow> c = CNull \<or> (\<exists>s. c = CStr s \<and> tn s = None)"
  by (cases c) auto





lemma count_missing_Inr:
  "count_missing fl df n = Inr m \<Longrightarrow>
     m = n + length (filter (\<lambda>r. engagement_missing fl (Engagements r) = Inr True) df)"
proof (induction df arbitrary: n)
  case Nil
  then show ?case by simp
next
  case (Cons r rs)
  from Cons.prems obtain b where
    b: "engagement_missing fl (Engagements r) = Inr b" and
    rest: "count_missing fl rs (if b then n + 1 else n) = Inr m"
    by (auto split: sum.splits)
  from Cons.IH [OF rest] b show ?case by (cases b) simp_all
qed

lemma map_Engagements_coerce_dates: "map Engagements (coerce_dates td df) = map Engagements df"
  by (simp add: coerce_dates_def Let_def comp_def)

lemma length_filter_map_Engagements:
  "length (filter (\<lambda>r. P (Engagements r)) df) = length (filter P (map Engagements df))"
  by (induction df) auto

lemma py_strip_150: "py_strip ''150'' = ''150''"
  by (simp add: py_strip_def py_isspace_def)

text \<open>
  Claim C8. The reported count of missing engagements is computed from the original cells:
  it is the number of rows whose original cell the loop of lines 62 to 71 classifies as
  missing, whatever the conversion of line 73 does afterwards (it is the same for every
  numeric parser \<open>tn\<close>). A null cell is counted and stored as 0; a blank string is
  counted, and stored as 0 when pandas does not parse it; the integer or float 150 is not
  counted and is stored as 150, and so is the string \<^verbatim>\<open>150\<close> when Python and pandas
  parse it as 150.
\<close>

theorem missing_engagements_classification:
  assumes "clean td fl tn df = Inr (rep, cleaned)"
  shows "missing_engagements_count rep =
           length (filter (\<lambda>r. engagement_missing fl (Engagements r) = Inr True) df) \<and>
         (\<forall>tn' rep' cleaned'. clean td fl tn' df = Inr (rep', cleaned') \<longrightarrow>
            missing_engagements_count rep' = missing_engagements_count rep) \<and>
         engagement_missing fl CNull = Inr True \<and> convert_engagement tn CNull = Inr 0 \<and>
         (\<forall>s. py_strip s = [] \<longrightarrow> engagement_missing fl (CStr s) = Inr True \<and>
            (tn s = None \<longrightarrow> convert_engagement tn (CStr s) = Inr 0)) \<and>
         engagement_missing fl (CInt 150) = Inr False \<and> convert_engagement tn (CInt 150) = Inr 150 \<and>
         engagement_missing fl (CFloat (Finite 150)) = Inr False \<and>
         convert_engagement tn (CFloat (Finite 150)) = Inr 150 \<and>
         (fl ''150'' \<and> tn ''150'' = Some (Finite 150) \<longrightarrow>
            engagement_missing fl (CStr ''150'') = Inr False \<and>
            convert_engagement tn (CStr ''150'') = Inr 150)"
proof -
  have count: "missing_engagements_count r =
      length (filter (\<lambda>r. engagement_missing fl (Engagements r) = Inr True) df)"
    if "clean td fl t df = Inr (r, c)" for t r c
  proof -
    from that obtain m where
      m: "count_missing fl (coerce_dates td df) 0 = Inr m" and
      r: "missing_engagements_count r = m"
      by (rule clean_Inr) simp
    show ?thesis
      unfolding r count_missing_Inr [OF m]
        length_filter_map_Engagements [of "\<lambda>c. engagement_missing fl c = Inr True"]
        map_Engagements_coerce_dates
      by simp
  qed
  have cells: "convert_engagement tn CNull = Inr 0" "convert_engagement tn (CInt 150) = Inr 150"
    "convert_engagement tn (CFloat (Finite 150)) = Inr 150"
    by (simp_all add: convert_engagement_def fillna0_def)
  have blank: "tn s = None \<Longrightarrow> convert_engagement tn (CStr s) = Inr 0" for s
    by (simp add: convert_engagement_def fillna0_def)
  have str: "tn ''150'' = Some (Finite 150) \<Longrightarrow> convert_engagement tn (CStr ''150'') = Inr 150"
    by (simp add: convert_engagement_def fillna0_def)
  have str_missing: "fl ''150'' \<Longrightarrow> engagement_missing fl (CStr ''150'') = Inr False"
    by (simp add: py_strip_150)
  show ?thesis
    using count [OF assms] count cells blank str str_missing by auto
qed

theorem missing_engagements_classification_witness:
  "clean sample_to_datetime sample_float sample_to_numeric engagement_frame =
     Inr (engagement_report, engagement_cleaned) \<and>
   missing_engagements_count engagement_report = 3 \<and>
   length (filter (\<lambda>r. engagement_missing sample_float (Engagements r) = Inr True) engagement_frame) = 3 \<and>
   py_strip ''  '' = [] \<and> sample_to_numeric ''  '' = None \<and>
   convert_engagement sample_to_numeric (CStr ''  '') = Inr 0 \<and>
   sample_float ''150'' \<and> sample_to_numeric ''150'' = Some (Finite 150) \<and>
   engagement_missing sample_float (CStr ''150'') = Inr False \<and>
   convert_engagement sample_to_numeric (CStr ''150'') = Inr 150"
proof -
  have h: "clean sample_to_datetime sample_float sample_to_numeric engagement_frame =
     Inr (engagement_report, engagement_cleaned)"
    by code_simp
  have r: "missing_engagements_count engagement_report = 3"
    by (simp add: engagement_report_def)
  have b: "py_strip ''  '' = []" "sample_to_numeric ''  '' = None"
    by code_simp+
  have n: "sample_float ''150''" "sample_to_numeric ''150'' = Some (Finite 150)"
    by code_simp+
  from missing_engagements_classification [OF h] r b n h show ?thesis by simp
qed

section \<open>Properties of the aggregate tables\<close>

lemma set_unique [simp]: "set (unique xs) = set xs"
  by (simp add: unique_def)

lemma distinct_unique [simp]: "distinct (unique xs)"
  by (simp add: unique_def)

lemma sum_list_count_list:
  assumes "distinct ks" and "set ks = set xs"
  shows "sum_list (map (count_list xs) ks) = length xs"
proof -
  have "sum_list (map (count_list xs) ks) = sum (count_list xs) (set ks)"
    using assms(1) by (rule sum_list_distinct_conv_sum_set)
  also have "\<dots> = length xs"
    unfolding assms(2) by (rule sum_count_set) simp_all
  finally show ?thesis .
qed

lemma sum_list_mset_cong:
  fixes g :: "'a \<Rightarrow> 'b::comm_monoid_add"
  shows "mset xs = mset ys \<Longrightarrow> sum_list (map g xs) = sum_list (map g ys)"
proof -
  assume "mset xs = mset ys"
  then have "mset (map g xs) = mset (map g ys)" by simp
  then have "sum_mset (mset (map g xs)) = sum_mset (mset (map g ys))" by (rule arg_cong)
  then show ?thesis by (simp only: sum_mset_sum_list)
qed

lemma sum_list_sort_key:
  fixes g :: "'a \<Rightarrow> 'b::comm_monoid_add"
  shows "sum_list (map g (sort_key f xs)) = sum_list (map g xs)"
  by (rule sum_list_mset_cong) simp

lemma length_dropna: "length (dropna col) = length (filter (\<lambda>x. x \<noteq> None) col)"
  by (induction col rule: dropna.induct) auto

lemma sum_value_counts:
  "sum_list (map snd (value_counts col)) = length (filter (\<lambda>x. x \<noteq> None) col)"
proof -
  have "sum_list (map snd (value_counts col)) =
      sum_list (map snd (map (\<lambda>k. (k, count_list (dropna col) k)) (unique (dropna col))))"
    by (simp add: value_counts_def Let_def sum_list_sort_key)
  also have "\<dots> = sum_list (map (count_list (dropna col)) (unique (dropna col)))"
    by (simp add: comp_def)
  also have "\<dots> = length (dropna col)"
    by (rule sum_list_count_list) simp_all
  finally show ?thesis by (simp add: length_dropna)
qed

lemma group_sum_Cons:
  "group_sum ((k, v) # xs) k' = (if k = k' then v else 0) + group_sum xs k'"
  by (simp add: group_sum_def)

lemma sum_list_absent:
  "k \<notin> set ks \<Longrightarrow> sum_list (map (\<lambda>k'. if k = k' then v else (0::int)) ks) = 0"
  by (induction ks) auto

lemma sum_list_single:
  "distinct ks \<Longrightarrow> k \<in> set ks \<Longrightarrow> sum_list (map (\<lambda>k'. if k = k' then v else (0::int)) ks) = v"
proof (induction ks)
  case Nil
  then show ?case by simp
next
  case (Cons a ks)
  show ?case
  proof (cases "k = a")
    case True
    with Cons.prems have "k \<notin> set ks" by simp
    then have "sum_list (map (\<lambda>k'. if k = k' then v else 0) ks) = 0"
      by (rule sum_list_absent)
    with True show ?thesis by simp
  next
    case False
    with Cons show ?thesis by simp
  qed
qed

lemma sum_group_sum:
  "distinct ks \<Longrightarrow> fst ` set xs \<subseteq> set ks \<Longrightarrow>
     sum_list (map (group_sum xs) ks) = sum_list (map snd xs)"
proof (induction xs)
  case Nil
  then show ?case by (simp add: group_sum_def)
next
  case (Cons x xs)
  obtain k v where x: "x = (k, v)" by (cases x)
  have "sum_list (map (group_sum (x # xs)) ks) =
      sum_list (map (\<lambda>k'. if k = k' then v else 0) ks) + sum_list (map (group_sum xs) ks)"
    unfolding x group_sum_Cons by (rule sum_list_addf)
  also have "sum_list (map (\<lambda>k'. if k = k' then v else 0) ks) = v"
    using Cons.prems x by (intro sum_list_single) auto
  also have "sum_list (map (group_sum xs) ks) = sum_list (map snd xs)"
    using Cons by auto
  finally show ?case by (simp add: x)
qed

lemma sum_groupby_sum:
  "sum_list (map snd (groupby_sum kvs)) = sum_list (map snd (dropna_keys kvs))"
proof -
  have "sum_list (map snd (groupby_sum kvs)) =
      sum_list (map (group_sum (dropna_keys kvs)) (sort (remdups (map fst (dropna_keys kvs)))))"
    by (simp add: groupby_sum_def Let_def comp_def)
  also have "\<dots> = sum_list (map snd (dropna_keys kvs))"
    by (rule sum_group_sum) simp_all
  finally show ?thesis .
qed

lemma dropna_keys_map:
  "map snd (dropna_keys (map (\<lambda>r. (f r, g r)) df)) = map g (filter (\<lambda>r. f r \<noteq> None) df)"
proof (induction df)
  case Nil
  then show ?case by simp
next
  case (Cons r rs)
  then show ?case by (cases "f r") simp_all
qed

text \<open>
  Claim C2, amended. The counts of the sentiment table and of the media type table sum to
  the number of cleaned rows whose \<^verbatim>\<open>Sentiment\<close> (\<^verbatim>\<open>Media Type\<close>) cell is not null,
  and so to the number of cleaned rows when no such cell is null. The sums of the table by
  date sum to the total of \<^verbatim>\<open>Engagements\<close> over all cleaned rows. The sums of the
  platform table, and of the location table before its truncation, sum to the total of
  \<^verbatim>\<open>Engagements\<close> over the cleaned rows whose \<^verbatim>\<open>Platform\<close> (\<^verbatim>\<open>Location\<close>) cell
  is not null, and so to the total over all cleaned rows when no such cell is null.
\<close>

theorem aggregate_sums:
  "sum_list (map snd (sentiment_counts df)) = length (filter (\<lambda>r. Sentiment r \<noteq> None) df) \<and>
   sum_list (map snd (media_type_counts df)) = length (filter (\<lambda>r. Media_Type r \<noteq> None) df) \<and>
   sum_list (map snd (engagement_by_date df)) = sum_list (map Engagements df) \<and>
   sum_list (map snd (platform_engagements df)) =
     sum_list (map Engagements (filter (\<lambda>r. Platform r \<noteq> None) df)) \<and>
   sum_list (map snd (location_sums df)) =
     sum_list (map Engagements (filter (\<lambda>r. Location r \<noteq> None) df)) \<and>
   ((\<forall>r \<in> set df. Sentiment r \<noteq> None) \<longrightarrow> sum_list (map snd (sentiment_counts df)) = length df) \<and>
   ((\<forall>r \<in> set df. Media_Type r \<noteq> None) \<longrightarrow> sum_list (map snd (media_type_counts df)) = length df) \<and>
   ((\<forall>r \<in> set df. Platform r \<noteq> None) \<longrightarrow>
      sum_list (map snd (platform_engagements df)) = sum_list (map Engagements df)) \<and>
   ((\<forall>r \<in> set df. Location r \<noteq> None) \<longrightarrow>
      sum_list (map snd (location_sums df)) = sum_list (map Engagements df))"
proof -
  have all: "(\<forall>r \<in> set df. P r) \<Longrightarrow> filter P df = df" for P :: "(timestamp, int) row \<Rightarrow> bool"
    by (induction df) auto
  have count: "length (filter (\<lambda>x. x \<noteq> None) (map f df)) = length (filter (\<lambda>r. f r \<noteq> None) df)"
    for f :: "(timestamp, int) row \<Rightarrow> string option"
    by (induction df) auto
  have s: "sum_list (map snd (sentiment_counts df)) = length (filter (\<lambda>r. Sentiment r \<noteq> None) df)"
    unfolding sentiment_counts_def sum_value_counts by (rule count)
  have m: "sum_list (map snd (media_type_counts df)) = length (filter (\<lambda>r. Media_Type r \<noteq> None) df)"
    unfolding media_type_counts_def sum_value_counts by (rule count)
  have d: "sum_list (map snd (engagement_by_date df)) = sum_list (map Engagements df)"
    unfolding engagement_by_date_def sum_groupby_sum dropna_keys_map by simp
  have p: "sum_list (map snd (platform_engagements df)) =
     sum_list (map Engagements (filter (\<lambda>r. Platform r \<noteq> None) df))"
    unfolding platform_engagements_def sort_values_desc_def sum_list_sort_key sum_groupby_sum
      dropna_keys_map ..
  have l: "sum_list (map snd (location_sums df)) =
     sum_list (map Engagements (filter (\<lambda>r. Location r \<noteq> None) df))"
    unfolding location_sums_def sum_groupby_sum dropna_keys_map ..
  from s m d p l show ?thesis by (auto simp: all)
qed

theorem aggregate_sums_witness:
  "list_all (\<lambda>r. Sentiment r \<noteq> None) engagement_cleaned \<and>
   list_all (\<lambda>r. Platform r \<noteq> None) engagement_cleaned \<and>
   length engagement_cleaned = 7 \<and>
   sum_list (map Engagements engagement_cleaned) = 449 \<and>
   sum_list (map snd (sentiment_counts engagement_cleaned)) = 7 \<and>
   sum_list (map snd (platform_engagements engagement_cleaned)) = 449 \<and>
   sum_list (map snd (engagement_by_date engagement_cleaned)) = 449"
proof -
  have s: "list_all (\<lambda>r. Sentiment r \<noteq> None) engagement_cleaned"
    by (simp add: engagement_cleaned_def mk_row_def)
  have p: "list_all (\<lambda>r. Platform r \<noteq> None) engagement_cleaned"
    by (simp add: engagement_cleaned_def mk_row_def)
  have l: "length engagement_cleaned = 7"
    by (simp add: engagement_cleaned_def)
  have e: "sum_list (map Engagements engagement_cleaned) = 449"
    by (simp add: engagement_cleaned_def mk_row_def)
  from aggregate_sums [of engagement_cleaned] s p l e show ?thesis
    by (simp add: list_all_iff)
qed

text \<open>
  Claim C2 says that the counts sum to the number of cleaned rows and the sums to the total
  of the engagements. \<^verbatim>\<open>value_counts\<close> and \<^verbatim>\<open>groupby\<close> leave the rows with a null key
  out: with an empty \<^verbatim>\<open>Sentiment\<close> cell in one of two rows the counts sum to 1, and
  with an empty \<^verbatim>\<open>Platform\<close> cell in the other the platform sums sum to 5 of 12.
\<close>

theorem aggregate_sums_counterexample:
  "clean sample_to_datetime sample_float sample_to_numeric null_label_frame =
     Inr (null_label_report, null_label_cleaned) \<and>
   cleaned_rows null_label_report = 2 \<and>
   sum_list (map snd (sentiment_counts null_label_cleaned)) = 1 \<and>
   sum_list (map Engagements null_label_cleaned) = 12 \<and>
   sum_list (map snd (platform_engagements null_label_cleaned)) = 5"
proof -
  have "clean sample_to_datetime sample_float sample_to_numeric null_label_frame =
     Inr (null_label_report, null_label_cleaned)"
    by code_simp
  moreover have "cleaned_rows null_label_report = 2"
    by (simp add: null_label_report_def)
  moreover have "sum_list (map snd (sentiment_counts null_label_cleaned)) = 1"
    by code_simp
  moreover have "sum_list (map Engagements null_label_cleaned) = 12"
    by code_simp
  moreover have "sum_list (map snd (platform_engagements null_label_cleaned)) = 5"
    by code_simp
  ultimately show ?thesis by simp
qed

lemma sorted_desc_sort_values: "sorted_wrt (\<ge>) (map snd (sort_values_desc tbl))"
proof -
  have "sorted (map (\<lambda>(k, v). - v) (sort_values_desc tbl))"
    unfolding sort_values_desc_def by (rule sorted_sort_key)
  then show ?thesis
    by (simp add: sorted_wrt_map case_prod_beta)
qed

text \<open>
  Claim C10. The table of the top locations has at most five rows; its sums do not
  increase; it is the first five rows (or all of them, when there are fewer) of the table of
  the sums of all locations ordered by falling sum, which is a permutation of the sums by
  location; and no row that the truncation leaves out has a greater sum than a row of the
  table.
\<close>

theorem top_locations:
  "length (engagements_by_location df) \<le> 5 \<and>
   length (engagements_by_location df) = min 5 (length (location_sums df)) \<and>
   sorted_wrt (\<ge>) (map snd (engagements_by_location df)) \<and>
   mset (sort_values_desc (location_sums df)) = mset (location_sums df) \<and>
   sorted_wrt (\<ge>) (map snd (sort_values_desc (location_sums df))) \<and>
   sort_values_desc (location_sums df) =
     engagements_by_location df @ drop 5 (sort_values_desc (location_sums df)) \<and>
   (\<forall>x \<in> set (engagements_by_location df).
      \<forall>y \<in> set (drop 5 (sort_values_desc (location_sums df))). snd y \<le> snd x)"
proof -
  define full where "full = sort_values_desc (location_sums df)"
  have top: "engagements_by_location df = take 5 full"
    by (simp add: engagements_by_location_def full_def)
  have len: "length full = length (location_sums df)"
    by (simp add: full_def sort_values_desc_def)
  have perm: "mset full = mset (location_sums df)"
    by (simp add: full_def sort_values_desc_def)
  have sorted: "sorted_wrt (\<ge>) (map snd full)"
    unfolding full_def by (rule sorted_desc_sort_values)
  then have "sorted_wrt (\<ge>) (map snd (take 5 full @ drop 5 full))" by simp
  then have split: "sorted_wrt (\<ge>) (map snd (take 5 full))"
    "\<forall>x \<in> set (take 5 full). \<forall>y \<in> set (drop 5 full). snd y \<le> snd x"
    unfolding map_append sorted_wrt_append by auto
  show ?thesis
    unfolding top full_def [symmetric] using len perm sorted split by auto
qed

theorem top_locations_witness:
  "engagements_by_location location_frame =
     [(''Rome'', 9), (''Bonn'', 7), (''Kyiv'', 7), (''Oslo'', 7), (''Riga'', 5)] \<and>
   drop 5 (sort_values_desc (location_sums location_frame)) = [(''Lima'', 2), (''Bern'', 1)] \<and>
   length (location_sums location_frame) = 7 \<and>
   length (engagements_by_location location_frame) = 5 \<and>
   sorted_wrt (\<ge>) (map snd (engagements_by_location location_frame)) \<and>
   sort_values_desc (location_sums location_frame) =
     [(''Rome'', 9), (''Bonn'', 7), (''Kyiv'', 7), (''Oslo'', 7), (''Riga'', 5), (''Lima'', 2), (''Bern'', 1)]"
proof -
  have t: "engagements_by_location location_frame =
     [(''Rome'', 9), (''Bonn'', 7), (''Kyiv'', 7), (''Oslo'', 7), (''Riga'', 5)]"
    by code_simp
  have d: "drop 5 (sort_values_desc (location_sums location_frame)) = [(''Lima'', 2), (''Bern'', 1)]"
    by code_simp
  have l: "length (location_sums location_frame) = 7"
    by code_simp
  from top_locations [of location_frame] t d l show ?thesis by simp
qed

section \<open>Properties of the insights and of the pipeline\<close>





text \<open>
  Claim C5. Line 178 by itself yields infinity when the sum of the second platform is zero,
  and the relative difference in percent otherwise. The sentence of line 179 is not
  well-formed Python, so the script does not reach any report.
\<close>

theorem percentage_difference_zero_second:
  "percentage_difference 100 0 = PosInf \<and> percentage_difference 150 100 = Finite 50"
  by (simp add: percentage_difference_def)

lemma build_charts_Nil: "build_charts [] = no_charts"
  by (simp add: build_charts_def no_charts_def sentiment_counts_def engagement_by_date_def
      platform_engagements_def media_type_counts_def engagements_by_location_def location_sums_def
      value_counts_def groupby_sum_def sort_values_desc_def unique_def
      sentiment_insights_def trend_insights_def platform_insights_def media_type_insights_def
      location_insights_def)

text \<open>
  Claim C7. When the cleaning returns no row, the pipeline raises nothing and builds no
  chart (lines 86 to 89), and every aggregate table and every list of insights of the empty
  cleaned frame is empty.
\<close>

theorem empty_dataset:
  assumes "clean td fl tn df = Inr (rep, cleaned)" and "cleaned_rows rep = 0"
  shows "pipeline td fl tn df = Inr (rep, None) \<and> cleaned = [] \<and>
         sentiment_counts cleaned = [] \<and> engagement_by_date cleaned = [] \<and>
         platform_engagements cleaned = [] \<and> media_type_counts cleaned = [] \<and>
         engagements_by_location cleaned = [] \<and>
         sentiment_insights (sentiment_counts cleaned) = [] \<and>
         trend_insights (engagement_by_date cleaned) = [] \<and>
         platform_insights (platform_engagements cleaned) = [] \<and>
         media_type_insights (media_type_counts cleaned) = [] \<and>
         location_insights (engagements_by_location cleaned) = []"
proof -
  from assms(1) have "cleaned_rows rep = length cleaned"
    by (rule clean_Inr) simp
  with assms(2) have e: "cleaned = []" by simp
  have p: "pipeline td fl tn df = Inr (rep, None)"
    using assms by (simp add: pipeline_def)
  have "build_charts cleaned = no_charts"
    unfolding e by (rule build_charts_Nil)
  then have
    "sentiment_table (build_charts cleaned) = []" "sentiment_list (build_charts cleaned) = []"
    "trend_table (build_charts cleaned) = []" "trend_list (build_charts cleaned) = []"
    "platform_table (build_charts cleaned) = []" "platform_list (build_charts cleaned) = []"
    "media_type_table (build_charts cleaned) = []" "media_type_list (build_charts cleaned) = []"
    "location_table (build_charts cleaned) = []" "location_list (build_charts cleaned) = []"
    by (simp_all add: no_charts_def)
  then show ?thesis
    using p e by (simp add: build_charts_def)
qed

theorem empty_dataset_witness:
  "clean sample_to_datetime sample_float sample_to_numeric no_date_frame = Inr (no_date_report, []) \<and>
   cleaned_rows no_date_report = 0 \<and>
   pipeline sample_to_datetime sample_float sample_to_numeric no_date_frame = Inr (no_date_report, None)"
proof -
  have h: "clean sample_to_datetime sample_float sample_to_numeric no_date_frame = Inr (no_date_report, [])"
    by code_simp
  have z: "cleaned_rows no_date_report = 0"
    by (simp add: no_date_report_def)
  from empty_dataset [OF h z] h z show ?thesis by simp
qed

lemma with_cells_id: "with_cells (Date r) (Engagements r) r = (r :: ('d, 'e) row)"
  by (cases r) (simp add: with_cells_def)

lemma with_cells_with_cells [simp]: "with_cells d e (with_cells d' e' r) = with_cells d e r"
  by (simp add: with_cells_def)

lemma isnull_sum_as_input: "isnull_sum (map Date (map as_input c)) = 0"
  by (induction c) (auto simp: isnull_sum_def as_input_def)

lemma coerce_dates_as_input:
  "coerce_dates td (map as_input c) = map (\<lambda>r. with_cells (Some (Date r)) (CInt (Engagements r)) r) c"
  by (simp add: coerce_dates_def Let_def as_input_def)

lemma isnat_sum_Some: "isnat_sum (map Date (map (\<lambda>r. with_cells (Some (f r)) (g r) r) c)) = 0"
  by (induction c) (auto simp: isnat_sum_def)

lemma count_missing_CInt:
  "count_missing fl (map (\<lambda>r. with_cells (d r) (CInt (g r)) r) c) n = Inr n"
  by (induction c) auto

lemma convert_engagement_CInt: "convert_engagement tn (CInt i) = Inr i"
  by (simp add: convert_engagement_def fillna0_def)

lemma convert_engagements_CInt:
  "convert_engagements tn (map (\<lambda>r. with_cells (d r) (CInt (g r)) r) c) =
     Inr (map (\<lambda>r. with_cells (d r) (g r) r) c)"
  by (induction c) (auto simp: convert_engagement_CInt)

lemma dropna_Date_Some:
  "dropna_Date (map (\<lambda>r. with_cells (Some (Date r)) (Engagements r) r) c) = c"
  by (induction c) (auto simp: with_cells_id)

lemma clean_as_input:
  "clean td fl tn (map as_input c) =
     Inr (\<lparr>original_rows = length c, cleaned_rows = length c, missing_engagements_count = 0,
           invalid_date_count = 0\<rparr>, c)"
proof -
  let ?df1 = "map (\<lambda>r. with_cells (Some (Date r)) (CInt (Engagements r)) r) c"
  let ?df2 = "map (\<lambda>r. with_cells (Some (Date r)) (Engagements r) r) c"
  have 1: "coerce_dates td (map as_input c) = ?df1"
    by (rule coerce_dates_as_input)
  have 2: "isnat_sum (map Date ?df1) = 0"
    by (rule isnat_sum_Some)
  have 3: "count_missing fl ?df1 0 = Inr 0"
    by (rule count_missing_CInt)
  have 4: "convert_engagements tn ?df1 = Inr ?df2"
    by (rule convert_engagements_CInt)
  have 5: "dropna_Date ?df2 = c"
    by (rule dropna_Date_Some)
  show ?thesis
    unfolding clean_def Let_def 1 2 3 4 isnull_sum_as_input by (simp add: 5)
qed

text \<open>
  Claim C9. Running the pipeline again on the frame that a first run has cleaned, with any
  parsers, keeps every row: the cleaned frame is the same, so are the number of cleaned rows
  and the charts, and nothing is counted as missing or invalid.
\<close>

theorem rerun_idempotent:
  assumes "clean td fl tn df = Inr (rep, cleaned)"
  shows "clean td' fl' tn' (map as_input cleaned) =
           Inr (\<lparr>original_rows = cleaned_rows rep, cleaned_rows = cleaned_rows rep,
                 missing_engagements_count = 0, invalid_date_count = 0\<rparr>, cleaned) \<and>
         pipeline td fl tn df =
           Inr (rep, if cleaned_rows rep = 0 then None else Some (build_charts cleaned)) \<and>
         pipeline td' fl' tn' (map as_input cleaned) =
           Inr (\<lparr>original_rows = cleaned_rows rep, cleaned_rows = cleaned_rows rep,
                 missing_engagements_count = 0, invalid_date_count = 0\<rparr>,
                if cleaned_rows rep = 0 then None else Some (build_charts cleaned))"
proof -
  from assms have l: "cleaned_rows rep = length cleaned"
    by (rule clean_Inr) simp
  show ?thesis
    using l by (simp add: pipeline_def clean_as_input assms)
qed

theorem rerun_idempotent_witness:
  "clean sample_to_datetime sample_float sample_to_numeric engagement_frame =
     Inr (engagement_report, engagement_cleaned) \<and>
   clean sample_to_datetime sample_float sample_to_numeric (map as_input engagement_cleaned) =
     Inr (\<lparr>original_rows = 7, cleaned_rows = 7, missing_engagements_count = 0,
           invalid_date_count = 0\<rparr>, engagement_cleaned) \<and>
   pipeline sample_to_datetime sample_float sample_to_numeric (map as_input engagement_cleaned) =
     Inr (\<lparr>original_rows = 7, cleaned_rows = 7, missing_engagements_count = 0,
           invalid_date_count = 0\<rparr>, Some (build_charts engagement_cleaned))"
proof -
  have h: "clean sample_to_datetime sample_float sample_to_numeric engagement_frame =
     Inr (engagement_report, engagement_cleaned)"
    by code_simp
  have r: "cleaned_rows engagement_report = 7"
    by (simp add: engagement_report_def)
  from rerun_idempotent [OF h, of sample_to_datetime sample_float sample_to_numeric] r h
  show ?thesis by simp
qed

lemma engagement_missing_total:
  "\<not> raises tn c \<Longrightarrow> \<exists>b. engagement_missing fl c = Inr b"
  by (cases c) auto

lemma convert_engagement_total:
  "\<not> raises tn c \<Longrightarrow> \<exists>i. convert_engagement tn c = Inr i"
proof (cases "fillna0 (to_numeric_cell tn c)")
  case (Finite q)
  then show ?thesis by (simp add: convert_engagement_def)
next
  case PosInf
  assume "\<not> raises tn c"
  with PosInf show ?thesis by (cases c) (auto simp: fillna0_def split: option.splits)
next
  case NegInf
  assume "\<not> raises tn c"
  with NegInf show ?thesis by (cases c) (auto simp: fillna0_def split: option.splits)
qed

lemma count_missing_total:
  "list_all (\<lambda>r. \<not> raises tn (Engagements r)) df \<Longrightarrow> \<exists>m. count_missing fl df n = Inr m"
proof (induction df arbitrary: n)
  case Nil
  then show ?case by simp
next
  case (Cons r rs)
  then obtain b where "engagement_missing fl (Engagements r) = Inr b"
    using engagement_missing_total [of tn "Engagements r" fl] by auto
  with Cons show ?case by simp
qed

lemma convert_engagements_total:
  "list_all (\<lambda>r. \<not> raises tn (Engagements r)) df \<Longrightarrow> \<exists>df2. convert_engagements tn df = Inr df2"
proof (induction df)
  case Nil
  then show ?case by simp
next
  case (Cons r rs)
  then obtain i where i: "convert_engagement tn (Engagements r) = Inr i"
    using convert_engagement_total [of tn "Engagements r"] by auto
  from Cons obtain rs' where "convert_engagements tn rs = Inr rs'" by auto
  with i show ?case by simp
qed

lemma raises_cases:
  "raises tn c \<Longrightarrow> (\<exists>e. engagement_missing fl c = Inl e) \<or> (\<exists>e. convert_engagement tn c = Inl e)"
  by (cases c) (auto simp: convert_engagement_def fillna0_def)

lemma count_missing_raises:
  "\<exists>r \<in> set df. \<exists>e. engagement_missing fl (Engagements r) = Inl e \<Longrightarrow>
     \<exists>e. count_missing fl df n = Inl e"
proof (induction df arbitrary: n)
  case Nil
  then show ?case by simp
next
  case (Cons r rs)
  show ?case
  proof (cases "engagement_missing fl (Engagements r)")
    case (Inl e)
    then show ?thesis by simp
  next
    case (Inr b)
    with Cons.prems have "\<exists>r \<in> set rs. \<exists>e. engagement_missing fl (Engagements r) = Inl e" by auto
    from Cons.IH [OF this] Inr show ?thesis by simp
  qed
qed

lemma convert_engagements_raises:
  "\<exists>r \<in> set df. \<exists>e. convert_engagement tn (Engagements r) = Inl e \<Longrightarrow>
     \<exists>e. convert_engagements tn df = Inl e"
proof (induction df)
  case Nil
  then show ?case by simp
next
  case (Cons r rs)
  show ?case
  proof (cases "convert_engagement tn (Engagements r)")
    case (Inl e)
    then show ?thesis by simp
  next
    case (Inr i)
    with Cons.prems have "\<exists>r \<in> set rs. \<exists>e. convert_engagement tn (Engagements r) = Inl e" by auto
    from Cons.IH [OF this] obtain e where "convert_engagements tn rs = Inl e" by auto
    with Inr show ?thesis by simp
  qed
qed

lemma set_Engagements_coerce_dates:
  "Engagements ` set (coerce_dates td df) = Engagements ` set df"
proof -
  have "set (map Engagements (coerce_dates td df)) = set (map Engagements df)"
    by (simp only: map_Engagements_coerce_dates)
  then show ?thesis by simp
qed

text \<open>
  The cleaning returns exactly when no cell of the \<^verbatim>\<open>Engagements\<close> column is a
  timestamp or converts to an infinity.
\<close>

lemma clean_returns_iff:
  "(\<exists>rep cleaned. clean td fl tn df = Inr (rep, cleaned)) \<longleftrightarrow>
     list_all (\<lambda>r. \<not> raises tn (Engagements r)) df"
proof
  assume ok: "list_all (\<lambda>r. \<not> raises tn (Engagements r)) df"
  have "\<forall>c \<in> Engagements ` set (coerce_dates td df). \<not> raises tn c"
    unfolding set_Engagements_coerce_dates using ok by (auto simp: list_all_iff)
  then have ok1: "list_all (\<lambda>r. \<not> raises tn (Engagements r)) (coerce_dates td df)"
    by (auto simp: list_all_iff)
  from count_missing_total [OF ok1] obtain m where
    "count_missing fl (coerce_dates td df) 0 = Inr m" by auto
  moreover from convert_engagements_total [OF ok1] obtain df2 where
    "convert_engagements tn (coerce_dates td df) = Inr df2" by auto
  ultimately show "\<exists>rep cleaned. clean td fl tn df = Inr (rep, cleaned)"
    by (simp add: clean_def Let_def)
next
  assume "\<exists>rep cleaned. clean td fl tn df = Inr (rep, cleaned)"
  then obtain rep cleaned where c: "clean td fl tn df = Inr (rep, cleaned)" by auto
  from c obtain m df2 where
    m: "count_missing fl (coerce_dates td df) 0 = Inr m" and
    d: "convert_engagements tn (coerce_dates td df) = Inr df2"
    by (rule clean_Inr)
  show "list_all (\<lambda>r. \<not> raises tn (Engagements r)) df"
  proof (rule ccontr)
    assume "\<not> list_all (\<lambda>r. \<not> raises tn (Engagements r)) df"
    then obtain r where "r \<in> set df" "raises tn (Engagements r)"
      by (auto simp: list_all_iff)
    then have "Engagements r \<in> Engagements ` set (coerce_dates td df)"
      unfolding set_Engagements_coerce_dates by simp
    then obtain r' where r': "r' \<in> set (coerce_dates td df)" "raises tn (Engagements r')"
      using \<open>raises tn (Engagements r)\<close> by auto
    from raises_cases [OF r'(2), of fl] show False
    proof
      assume "\<exists>e. engagement_missing fl (Engagements r') = Inl e"
      with r'(1) have "\<exists>e. count_missing fl (coerce_dates td df) 0 = Inl e"
        by (intro count_missing_raises) auto
      with m show False by simp
    next
      assume "\<exists>e. convert_engagement tn (Engagements r') = Inl e"
      with r'(1) have "\<exists>e. convert_engagements tn (coerce_dates td df) = Inl e"
        by (intro convert_engagements_raises) auto
      with d show False by simp
    qed
  qed
qed

end
